theory Spec2Isabelle
  imports Complex_Main "HOL-Library.Sublist"
begin

section \<open>JavaScript values\<close>

text \<open>
  The records browsed by the program are JSON payloads of the Azure DevOps command-line
  tool. A raw value is a JavaScript value: \<open>undefined\<close>, \<open>null\<close>, a boolean, a number,
  a string, an array or a plain object. Numbers are modelled by the integers (ids and
  reviewer votes are integral in the payloads, and JSON has no \<open>NaN\<close>); strings are \<open>char\<close> lists whose
  characters stand for the code units of the JavaScript string, and an object is the
  list of its own properties in insertion order.
\<close>

datatype jsval =
    JUndefined
  | JNull
  | JBool bool
  | JNum int
  | JStr string
  | JArr "jsval list"
  | JObj "(string \<times> jsval) list"

text \<open>Truthiness, as used by \<open>!x\<close>, \<open>x || y\<close> and \<open>if (x)\<close>.\<close>

fun truthy :: "jsval \<Rightarrow> bool" where
  "truthy JUndefined = False"
| "truthy JNull = False"
| "truthy (JBool b) = b"
| "truthy (JNum n) = (n \<noteq> 0)"
| "truthy (JStr s) = (s \<noteq> [])"
| "truthy (JArr xs) = True"
| "truthy (JObj kvs) = True"

text \<open>\<open>a || b\<close>\<close>

definition js_or :: "jsval \<Rightarrow> jsval \<Rightarrow> jsval" where
  "js_or a b = (if truthy a then a else b)"

text \<open>
  Property access \<open>v.name\<close> on a value that is neither \<open>null\<close> nor \<open>undefined\<close>: an
  own property of an object, \<open>undefined\<close> when the object has none of that name. The
  names read by the program (\<open>displayName\<close>, \<open>uniqueName\<close>, \<open>mailAddress\<close>) are not
  built-in properties of numbers, booleans, strings or arrays, so these give
  \<open>undefined\<close> as well.
\<close>

fun getProp :: "jsval \<Rightarrow> string \<Rightarrow> jsval" where
  "getProp (JObj kvs) name = (case map_of kvs name of Some v \<Rightarrow> v | None \<Rightarrow> JUndefined)"
| "getProp v name = JUndefined"

text \<open>\<open>xs.join(sep)\<close> on an array of strings.\<close>

fun joinWith :: "string \<Rightarrow> string list \<Rightarrow> string" where
  "joinWith sep [] = []"
| "joinWith sep [x] = x"
| "joinWith sep (x # y # ys) = x @ sep @ joinWith sep (y # ys)"

text \<open>Decimal digits of a natural number, and \<open>String(n)\<close> for an integral number.\<close>

fun digitsOf :: "nat \<Rightarrow> string" where
  "digitsOf n =
     (if n < 10 then [char_of (48 + n)]
      else digitsOf (n div 10) @ [char_of (48 + n mod 10)])"

declare digitsOf.simps [simp del]

definition showInt :: "int \<Rightarrow> string" where
  "showInt i = (if i < 0 then CHR ''-'' # digitsOf (nat (- i)) else digitsOf (nat i))"

text \<open>
  \<open>String(v)\<close>. An array is joined with commas, where \<open>null\<close> and \<open>undefined\<close>
  elements contribute the empty string; a plain object prints as
  \<open>[object Object]\<close>.
\<close>

fun jsString :: "jsval \<Rightarrow> string" where
  "jsString JUndefined = ''undefined''"
| "jsString JNull = ''null''"
| "jsString (JBool b) = (if b then ''true'' else ''false'')"
| "jsString (JNum n) = showInt n"
| "jsString (JStr s) = s"
| "jsString (JArr xs) =
     joinWith '','' (map (\<lambda>x. if x = JNull \<or> x = JUndefined then [] else jsString x) xs)"
| "jsString (JObj kvs) = ''[object Object]''"

text \<open>\<open>xs.join(sep)\<close> on an array of arbitrary values.\<close>

definition arrayJoin :: "string \<Rightarrow> jsval list \<Rightarrow> string" where
  "arrayJoin sep xs =
     joinWith sep (map (\<lambda>x. if x = JNull \<or> x = JUndefined then [] else jsString x) xs)"

section \<open>Approval status of a pull request\<close>

text \<open>
  \<open>getApprovalStatus(pr)\<close>. A pull request carries an optional \<open>reviewers\<close> array; each
  reviewer has a \<open>vote\<close> (\<open>undefined\<close> when the property is missing). The result is a
  label wrapped in one of chalk's colours. \<open>createdBy\<close> is the identity object of the
  author, \<open>undefined\<close> when the payload has none.
\<close>

record reviewer =
  reviewer_name :: jsval
  vote :: jsval

record pull_request =
  pullRequestId :: jsval
  createdBy :: jsval
  reviewers :: "reviewer list option"

datatype chalk = Red string | Green string | Yellow string

fun isNumber :: "jsval \<Rightarrow> bool" where
  "isNumber (JNum n) = True"
| "isNumber v = False"

fun numOf :: "jsval \<Rightarrow> int" where
  "numOf (JNum n) = n"
| "numOf v = 0"

text \<open>
  \<open>pr.reviewers?.map((r) => r.vote).filter((v) => typeof v === "number") || []\<close>
\<close>

definition votesOf :: "pull_request \<Rightarrow> int list" where
  "votesOf pr =
     (case reviewers pr of
        None \<Rightarrow> []
      | Some rs \<Rightarrow> map numOf (filter isNumber (map vote rs)))"

definition getApprovalStatus :: "pull_request \<Rightarrow> chalk" where
  "getApprovalStatus pr =
     (let votes = votesOf pr in
      if list_ex (\<lambda>v. v < 0) votes then Red ''Rejected''
      else if list_ex (\<lambda>v. v \<ge> 5) votes then Green ''Approved''
      else Yellow ''Pending'')"

section \<open>Text helpers\<close>

text \<open>White space as matched by \<open>\s\<close> and removed by \<open>trim()\<close>, on ASCII text.\<close>

definition isSpace :: "char \<Rightarrow> bool" where
  "isSpace c = (c \<in> set [CHR 0x09, CHR 0x0A, CHR 0x0B, CHR 0x0C, CHR 0x0D, CHR 0x20])"

definition trim :: "string \<Rightarrow> string" where
  "trim s = rev (dropWhile isSpace (rev (dropWhile isSpace s)))"

text \<open>\<open>s.split(d)\<close> for a one-character separator: always at least one segment.\<close>

fun splitOn :: "char \<Rightarrow> string \<Rightarrow> string list" where
  "splitOn d [] = [[]]"
| "splitOn d (c # cs) =
     (if c = d then [] # splitOn d cs
      else (case splitOn d cs of [] \<Rightarrow> [[c]] | w # ws \<Rightarrow> (c # w) # ws))"


text \<open>\<open>s.replace(pat, rep)\<close> with a string pattern: only the first occurrence.\<close>

fun isPrefix :: "string \<Rightarrow> string \<Rightarrow> bool" where
  "isPrefix [] s = True"
| "isPrefix (p # ps) [] = False"
| "isPrefix (p # ps) (c # cs) = (p = c \<and> isPrefix ps cs)"

fun replaceFirst :: "string \<Rightarrow> string \<Rightarrow> string \<Rightarrow> string" where
  "replaceFirst pat rep [] = (if pat = [] then rep else [])"
| "replaceFirst pat rep (c # cs) =
     (if isPrefix pat (c # cs) then rep @ drop (length pat) (c # cs)
      else c # replaceFirst pat rep cs)"

text \<open>\<open>s.slice(a, b)\<close>: negative indices count from the end, all indices are clipped.\<close>

definition jsSlice :: "string \<Rightarrow> int \<Rightarrow> int \<Rightarrow> string" where
  "jsSlice s a b =
     (let n = int (length s);
          from = (if a < 0 then max (n + a) 0 else min a n);
          to = (if b < 0 then max (n + b) 0 else min b n)
      in take (nat (to - from)) (drop (nat from) s))"

definition newline :: string where
  "newline = [CHR 0x0A]"

subsection \<open>wrapText\<close>




subsection \<open>formatBranch\<close>

text \<open>
  The \<open>for (let i = 0; i < branch.length; i += width)\<close> loop of \<open>formatBranch\<close>. With
  a width below 1 the index never passes the end of the text and the loop does not
  return, which is the value \<open>None\<close>.
\<close>

partial_function (option) chunkLoop :: "string \<Rightarrow> int \<Rightarrow> int \<Rightarrow> string list \<Rightarrow> string list option" where
  "chunkLoop branch width i parts =
     (if i < int (length branch)
      then chunkLoop branch width (i + width) (parts @ [jsSlice branch i (i + width)])
      else Some parts)"

declare chunkLoop.simps [code]

definition formatBranch :: "string \<Rightarrow> int \<Rightarrow> string option" where
  "formatBranch name width =
     (let branch = replaceFirst ''refs/heads/'' [] name in
      if branch = [] then Some ''-''
      else map_option (joinWith newline) (chunkLoop branch width 0 []))"

text \<open>
  The slices the specification describes: consecutive pieces of exactly \<open>w\<close>
  characters, the last one possibly shorter.
\<close>

fun chunks :: "nat \<Rightarrow> string \<Rightarrow> string list" where
  "chunks w s =
     (if w = 0 \<or> s = [] then [] else take w s # chunks w (drop w s))"

declare chunks.simps [simp del]

section \<open>Work items\<close>

text \<open>
  \<open>normalizeFieldValue(field, value)\<close>, applied to every raw field when a work item is
  fetched.
\<close>

definition normalizeFieldValue :: "string \<Rightarrow> jsval \<Rightarrow> jsval" where
  "normalizeFieldValue field v =
     (if v = JNull \<or> v = JUndefined then JStr ''-''
      else if field = ''System.AssignedTo'' then
        (case v of
           JStr s \<Rightarrow> v
         | _ \<Rightarrow> js_or (getProp v ''displayName'')
                 (js_or (getProp v ''uniqueName'')
                   (js_or (getProp v ''mailAddress'') (JStr ''-''))))
      else (case v of JArr xs \<Rightarrow> JStr (arrayJoin '', '' xs) | _ \<Rightarrow> v))"


record task =
  task_id :: jsval
  task_fields :: "(string \<times> jsval) list"

fun lookupKey :: "(string \<times> jsval) list \<Rightarrow> string \<Rightarrow> jsval" where
  "lookupKey [] k = JUndefined"
| "lookupKey ((k', v) # kvs) k = (if k' = k then v else lookupKey kvs k)"



text \<open>\<open>getField(task, name)\<close>: \<open>task.fields?.[name]\<close>\<close>

definition getField :: "task \<Rightarrow> string \<Rightarrow> jsval" where
  "getField t name = lookupKey (task_fields t) name"

text \<open>\<open>formatField(field, value)\<close>: the text of a table cell.\<close>

definition formatField :: "string \<Rightarrow> jsval \<Rightarrow> string" where
  "formatField field v =
     (if v = JNull \<or> v = JUndefined \<or> v = JStr ''-'' then ''-''
      else if field = ''System.IterationPath'' then
        (let parts = filter (\<lambda>p. p \<noteq> []) (map trim (splitOn (CHR 0x5C) (jsString v)))
         in if parts \<noteq> [] then last parts else jsString v)
      else (case v of
              JStr s \<Rightarrow>
                if field = ''System.Tags'' then trim (joinWith '', '' (splitOn (CHR '';'') s))
                else jsString v
            | _ \<Rightarrow> jsString v))"

section \<open>The filter engine\<close>

text \<open>
  A compiled regular expression is used through its \<open>test\<close> method only. The
  program builds every expression with the flag \<open>i\<close> alone, so \<open>test\<close> keeps no state
  between calls and is a predicate on strings.
\<close>

type_synonym regex = "string \<Rightarrow> bool"



fun containsSub :: "string \<Rightarrow> string \<Rightarrow> bool" where
  "containsSub pat [] = (pat = [])"
| "containsSub pat (c # cs) = (isPrefix pat (c # cs) \<or> containsSub pat cs)"


text \<open>
  \<open>filterByField(tasks, field, regex)\<close>. The field is \<open>None\<close> for \<open>null\<close>; the empty
  string is falsy as well. The expression is \<open>None\<close> for \<open>null\<close>.
\<close>

definition fieldText :: "task \<Rightarrow> string \<Rightarrow> string" where
  \<comment> \<open>\<open>String(getField(t, field) || "")\<close>\<close>
  "fieldText t field = jsString (js_or (getField t field) (JStr []))"

definition filterByField :: "task list \<Rightarrow> string option \<Rightarrow> regex option \<Rightarrow> task list" where
  "filterByField tasks field regex =
     (case (field, regex) of
        (Some f, Some re) \<Rightarrow>
          if f = [] then tasks else filter (\<lambda>t. re (fieldText t f)) tasks
      | _ \<Rightarrow> tasks)"

section \<open>The interactive filter of the board tasks\<close>








section \<open>The menu of the pull request viewer\<close>





section \<open>Column widths\<close>














section \<open>Sample data\<close>








section \<open>Auxiliary notions\<close>


section \<open>Approval status\<close>

lemma isNumber_iff: "isNumber v \<longleftrightarrow> (\<exists>n. v = JNum n)"
  by (cases v) auto

lemma list_ex_votesOf:
  "list_ex P (votesOf pr) \<longleftrightarrow>
     (\<exists>rs r n. reviewers pr = Some rs \<and> r \<in> set rs \<and> vote r = JNum n \<and> P n)"
proof (cases "reviewers pr")
  case None
  then show ?thesis by (simp add: votesOf_def)
next
  case (Some rs)
  have "list_ex P (map numOf (filter isNumber (map vote rs))) \<longleftrightarrow>
          (\<exists>r n. r \<in> set rs \<and> vote r = JNum n \<and> P n)"
    by (induction rs) (auto simp: isNumber_iff)
  with Some show ?thesis by (simp add: votesOf_def)
qed

text \<open>
  Claim C10. The approval status of a pull request is \<open>Rejected\<close> as soon as some
  reviewer's numeric vote is negative, whatever the other votes; otherwise it is
  \<open>Approved\<close> when some numeric vote is at least 5; otherwise it is \<open>Pending\<close>, which
  covers a pull request without reviewers and one without numeric votes.
\<close>

theorem getApprovalStatus_precedence:
  "getApprovalStatus pr =
     (if (\<exists>rs r n. reviewers pr = Some rs \<and> r \<in> set rs \<and> vote r = JNum n \<and> n < 0)
      then Red ''Rejected''
      else if (\<exists>rs r n. reviewers pr = Some rs \<and> r \<in> set rs \<and> vote r = JNum n \<and> n \<ge> 5)
      then Green ''Approved''
      else Yellow ''Pending'')"
  unfolding getApprovalStatus_def Let_def list_ex_votesOf by simp

section \<open>Normalization\<close>

text \<open>
  Claim C8. For the person field \<open>System.AssignedTo\<close> an object normalizes to its
  \<open>displayName\<close>, else to its \<open>uniqueName\<close>, else to its \<open>mailAddress\<close>, else to
  \<open>-\<close>, where a sub-property counts when it is present and truthy; so the object with
  the display name \<open>Jane Doe\<close> gives \<open>Jane Doe\<close>. For every field, \<open>null\<close> and
  \<open>undefined\<close> normalize to \<open>-\<close>.
\<close>

theorem normalizeFieldValue_person:
  "normalizeFieldValue field JNull = JStr ''-'' \<and>
   normalizeFieldValue field JUndefined = JStr ''-'' \<and>
   normalizeFieldValue ''System.AssignedTo'' (JObj kvs) =
     (if truthy (getProp (JObj kvs) ''displayName'') then getProp (JObj kvs) ''displayName''
      else if truthy (getProp (JObj kvs) ''uniqueName'') then getProp (JObj kvs) ''uniqueName''
      else if truthy (getProp (JObj kvs) ''mailAddress'') then getProp (JObj kvs) ''mailAddress''
      else JStr ''-'') \<and>
   normalizeFieldValue ''System.AssignedTo'' (JObj [(''displayName'', JStr ''Jane Doe'')]) =
     JStr ''Jane Doe''"
  by (simp add: normalizeFieldValue_def js_or_def)




text \<open>
  Claim C4. For the tag field \<open>System.Tags\<close> the cell text of a string value is the
  value with every \<open>;\<close> replaced by a comma and a blank, trimmed as a whole: the
  segments themselves are not trimmed. The tags \<open>bug; ui\<close> are shown with two blanks
  after the comma, where trimming each segment would give one.
\<close>

theorem formatField_tags_segments_untrimmed:
  "formatField ''System.Tags'' (JStr ''bug; ui'') = ''bug,  ui'' \<and>
   joinWith '', '' (map trim (splitOn (CHR '';'') ''bug; ui'')) = ''bug, ui''"
  by code_simp

section \<open>Filtering\<close>

text \<open>
  Claim C6. With a \<open>null\<close> field, or an empty one, or a \<open>null\<close> expression, the
  filter returns its input list unchanged.
\<close>

theorem filterByField_identity:
  "filterByField tasks None None = tasks \<and>
   filterByField tasks (Some []) None = tasks \<and>
   filterByField tasks None regex = tasks \<and>
   filterByField tasks (Some []) regex = tasks \<and>
   filterByField tasks field None = tasks"
  by (simp add: filterByField_def split: option.splits)

text \<open>
  Claim C5. Filtering the result of a filter again, with the same field and the same
  expression, changes nothing.
\<close>

theorem filterByField_idempotent:
  "filterByField (filterByField tasks field regex) field regex = filterByField tasks field regex"
  by (simp add: filterByField_def split: option.splits)






section \<open>Column widths\<close>
























section \<open>The interactive loops\<close>










section \<open>Fixed-width slices\<close>

lemma jsSlice_chunk:
  assumes "0 \<le> i" "i < int (length s)" "0 < w"
  shows "jsSlice s i (i + w) = take (nat w) (drop (nat i) s)"
proof -
  have fr: "min i (int (length s)) = i" using assms by linarith
  have eq: "jsSlice s i (i + w) = take (nat (min (i + w) (int (length s)) - i)) (drop (nat i) s)"
    using assms fr by (simp add: jsSlice_def Let_def)
  show ?thesis
  proof (cases "i + w \<le> int (length s)")
    case True
    then have "min (i + w) (int (length s)) - i = w" by linarith
    with eq show ?thesis by simp
  next
    case False
    then have "min (i + w) (int (length s)) - i = int (length s) - i" by linarith
    with eq have e: "jsSlice s i (i + w) = take (nat (int (length s) - i)) (drop (nat i) s)"
      by simp
    have l1: "length (drop (nat i) s) \<le> nat (int (length s) - i)" using assms by simp
    have l2: "length (drop (nat i) s) \<le> nat w" using assms False by simp
    from e l1 l2 show ?thesis by simp
  qed
qed

lemma chunks_Nil: "chunks w [] = []"
  by (subst chunks.simps) simp

lemma chunks_Cons:
  "0 < w \<Longrightarrow> s \<noteq> [] \<Longrightarrow> chunks w s = take w s # chunks w (drop w s)"
  by (subst chunks.simps) simp

lemma chunkLoop_chunks:
  "0 < w \<Longrightarrow> 0 \<le> i \<Longrightarrow>
   chunkLoop s w i parts = Some (parts @ chunks (nat w) (drop (nat i) s))"
proof (induction "length s - nat i" arbitrary: i parts rule: less_induct)
  case less
  show ?case
  proof (cases "i < int (length s)")
    case True
    have lt: "length s - nat (i + w) < length s - nat i"
      using True less.prems by (simp add: nat_add_distrib)
    have step: "chunkLoop s w (i + w) (parts @ [jsSlice s i (i + w)]) =
        Some ((parts @ [jsSlice s i (i + w)]) @ chunks (nat w) (drop (nat (i + w)) s))"
      using less.hyps[OF lt] less.prems by simp
    have ne: "drop (nat i) s \<noteq> []" using True less.prems by simp
    have dd: "drop (nat (i + w)) s = drop (nat w) (drop (nat i) s)"
      using less.prems by (simp add: nat_add_distrib add.commute)
    have "chunks (nat w) (drop (nat i) s) =
        take (nat w) (drop (nat i) s) # chunks (nat w) (drop (nat w) (drop (nat i) s))"
      using ne less.prems by (simp add: chunks_Cons)
    then show ?thesis
      using True step dd jsSlice_chunk[OF less.prems(2) True less.prems(1)]
      by (subst chunkLoop.simps) simp
  next
    case False
    then have "drop (nat i) s = []" using less.prems by simp
    then show ?thesis using False by (subst chunkLoop.simps) (simp add: chunks_Nil)
  qed
qed

lemma concat_chunks: "0 < w \<Longrightarrow> concat (chunks w s) = s"
proof (induction w s rule: chunks.induct)
  case (1 w s)
  then show ?case
    by (cases "s = []") (simp_all add: chunks_Nil chunks_Cons del: chunks.simps)
qed

lemma chunks_lengths:
  "0 < w \<Longrightarrow> p \<in> set (chunks w s) \<Longrightarrow> p \<noteq> [] \<and> length p \<le> w"
proof (induction w s rule: chunks.induct)
  case (1 w s)
  then show ?case
    by (cases "s = []") (auto simp add: chunks_Nil chunks_Cons simp del: chunks.simps)
qed

lemma chunks_butlast:
  "0 < w \<Longrightarrow> p \<in> set (butlast (chunks w s)) \<Longrightarrow> length p = w"
proof (induction w s rule: chunks.induct)
  case (1 w s)
  show ?case
  proof (cases "s = []")
    case True
    with 1 show ?thesis by (simp add: chunks_Nil del: chunks.simps)
  next
    case False
    show ?thesis
    proof (cases "drop w s = []")
      case True
      with False 1 show ?thesis by (simp add: chunks_Nil chunks_Cons del: chunks.simps)
    next
      case d: False
      then have ne: "chunks w (drop w s) \<noteq> []"
        using 1(2) by (simp add: chunks_Cons del: chunks.simps)
      from d have "w < length s" by simp
      then have "length (take w s) = w" by simp
      with 1 False ne show ?thesis
        by (auto simp add: chunks_Cons simp del: chunks.simps)
    qed
  qed
qed

lemma replaceFirst_absent:
  "pat \<noteq> [] \<Longrightarrow> \<not> containsSub pat s \<Longrightarrow> replaceFirst pat rep s = s"
  by (induction s) auto

lemma formatBranch_chunks:
  "0 < width \<Longrightarrow>
   formatBranch name width =
     Some (if replaceFirst ''refs/heads/'' [] name = [] then ''-''
           else joinWith newline (chunks (nat width) (replaceFirst ''refs/heads/'' [] name)))"
  by (simp add: formatBranch_def Let_def chunkLoop_chunks)

text \<open>
  Claim C9, as stated, has the slices cut from the input. A branch reference loses its
  \<open>refs/heads/\<close> first: \<open>refs/heads/main\<close> at width 4 is the single slice \<open>main\<close>,
  not the four slices of the whole text. An empty name gives the placeholder.
\<close>

theorem formatBranch_strips_ref_counterexample:
  "formatBranch ''refs/heads/main'' 4 = Some ''main'' \<and>
   formatBranch ''refs/heads/main'' 4 \<noteq> Some (joinWith newline (chunks 4 ''refs/heads/main'')) \<and>
   formatBranch [] 4 = Some ''-''"
  by code_simp

text \<open>
  Claim C9, amended. For a width of at least 1, \<open>formatBranch\<close> returns: it removes the
  first \<open>refs/heads/\<close> from the name, gives \<open>-\<close> when nothing is left, and otherwise
  joins with newlines the consecutive slices of the rest. The slices concatenate to
  the text they are cut from, none is empty or longer than the width, and all but the
  last have exactly the width. A name without \<open>refs/heads/\<close> is sliced as it is, so
  \<open>abcdefgh\<close> at width 3 gives \<open>abc\<close>, \<open>def\<close>, \<open>gh\<close>.
\<close>

theorem formatBranch_slices:
  "0 < width \<Longrightarrow>
   formatBranch name width =
     Some (if replaceFirst ''refs/heads/'' [] name = [] then ''-''
           else joinWith newline (chunks (nat width) (replaceFirst ''refs/heads/'' [] name))) \<and>
   concat (chunks (nat width) text) = text \<and>
   (\<forall>p\<in>set (chunks (nat width) text). p \<noteq> [] \<and> int (length p) \<le> width) \<and>
   (\<forall>p\<in>set (butlast (chunks (nat width) text)). int (length p) = width) \<and>
   (\<not> containsSub ''refs/heads/'' name \<longrightarrow> replaceFirst ''refs/heads/'' [] name = name) \<and>
   formatBranch ''abcdefgh'' 3 = Some (''abc'' @ newline @ ''def'' @ newline @ ''gh'')"
proof -
  assume w: "0 < width"
  then have nw: "0 < nat width" by simp
  have a: "formatBranch name width =
     Some (if replaceFirst ''refs/heads/'' [] name = [] then ''-''
           else joinWith newline (chunks (nat width) (replaceFirst ''refs/heads/'' [] name)))"
    using w by (rule formatBranch_chunks)
  have b: "concat (chunks (nat width) text) = text" using nw by (rule concat_chunks)
  have c: "\<forall>p\<in>set (chunks (nat width) text). p \<noteq> [] \<and> int (length p) \<le> width"
    using chunks_lengths[OF nw] w by fastforce
  have d: "\<forall>p\<in>set (butlast (chunks (nat width) text)). int (length p) = width"
    using chunks_butlast[OF nw] w by fastforce
  have e: "\<not> containsSub ''refs/heads/'' name \<longrightarrow> replaceFirst ''refs/heads/'' [] name = name"
    using replaceFirst_absent[of "''refs/heads/''" name "[]"] by simp
  have f: "formatBranch ''abcdefgh'' 3 = Some (''abc'' @ newline @ ''def'' @ newline @ ''gh'')"
    by code_simp
  show ?thesis by (intro conjI a b c d e f)
qed

lemma feature_login:
  "Some (if replaceFirst ''refs/heads/'' [] ''feature/login'' = [] then ''-''
         else joinWith newline (chunks (nat 4) (replaceFirst ''refs/heads/'' [] ''feature/login'')))
   = Some (''feat'' @ newline @ ''ure/'' @ newline @ ''logi'' @ newline @ ''n'')"
  by code_simp

lemma feature_login_plain: "\<not> containsSub ''refs/heads/'' ''feature/login''"
  by code_simp

text \<open>The name \<open>feature/login\<close> at width 4.\<close>

theorem formatBranch_slices_witness:
  "formatBranch ''feature/login'' 4 =
     Some (''feat'' @ newline @ ''ure/'' @ newline @ ''logi'' @ newline @ ''n'') \<and>
   concat (chunks (nat 4) ''feature/login'') = ''feature/login'' \<and>
   replaceFirst ''refs/heads/'' [] ''feature/login'' = ''feature/login''"
proof -
  have w: "(0::int) < 4" by simp
  note t = formatBranch_slices[OF w, of "''feature/login''" "''feature/login''"]
  from t feature_login have a: "formatBranch ''feature/login'' 4 =
     Some (''feat'' @ newline @ ''ure/'' @ newline @ ''logi'' @ newline @ ''n'')"
    by (simp only:)
  from t have b: "concat (chunks (nat 4) ''feature/login'') = ''feature/login''"
    by (elim conjE)
  from t feature_login_plain
  have c: "replaceFirst ''refs/heads/'' [] ''feature/login'' = ''feature/login''"
    by (elim conjE) (erule mp)
  show ?thesis by (intro conjI a b c)
qed

section \<open>Word wrap\<close>











end
